theory Spec2Isabelle
  imports Main "HOL-Library.Sublist"
begin

section \<open>Values and text\<close>

text \<open>
  The records of the application are Python lists whose elements are strings, integers
  or \<^verbatim>\<open>None\<close> (a NULL column read back from the database). Text is modelled as a list
  of code points below 256; \<^verbatim>\<open>str.lower\<close>, \<^verbatim>\<open>str.strip\<close> and \<^verbatim>\<open>str.isspace\<close> are
  Python's, restricted to that range.
\<close>

datatype py_value = PNone | PInt int | PStr string

type_synonym row = "py_value list"

definition digit_char :: "nat \<Rightarrow> char" where
  "digit_char n = char_of (48 + n)"

fun nat_str :: "nat \<Rightarrow> string" where
  "nat_str n = (if n < 10 then [digit_char n] else nat_str (n div 10) @ [digit_char (n mod 10)])"

declare nat_str.simps [simp del]

definition int_str :: "int \<Rightarrow> string" where
  "int_str i = (if i < 0 then CHR ''-'' # nat_str (nat (- i)) else nat_str (nat i))"

text \<open>\<^verbatim>\<open>str(val)\<close>\<close>

fun py_str :: "py_value \<Rightarrow> string" where
  "py_str PNone = ''None''"
| "py_str (PInt i) = int_str i"
| "py_str (PStr s) = s"

text \<open>\<^verbatim>\<open>str.isspace\<close> on one character: TAB, LF, VT, FF, CR, FS, GS, RS, US, space, NEL, NBSP.\<close>

definition is_space :: "char \<Rightarrow> bool" where
  "is_space c = (let n = (of_char c :: nat) in
     (9 \<le> n \<and> n \<le> 13) \<or> (28 \<le> n \<and> n \<le> 32) \<or> n = 133 \<or> n = 160)"

text \<open>\<^verbatim>\<open>str.lower\<close> on one character: A-Z and the capital letters of Latin-1.\<close>

definition lower_char :: "char \<Rightarrow> char" where
  "lower_char c = (let n = (of_char c :: nat) in
     if (65 \<le> n \<and> n \<le> 90) \<or> (192 \<le> n \<and> n \<le> 222 \<and> n \<noteq> 215) then char_of (n + 32) else c)"

definition py_lower :: "string \<Rightarrow> string" where
  "py_lower s = map lower_char s"

definition py_strip :: "string \<Rightarrow> string" where
  "py_strip s = rev (dropWhile is_space (rev (dropWhile is_space s)))"

text \<open>\<^verbatim>\<open>a in b\<close> on strings is the test for a contiguous substring, \<^const>\<open>sublist\<close>.\<close>

section \<open>The records page and the dashboard\<close>

text \<open>
  What \<^verbatim>\<open>refresh_dashboard\<close> writes into the four statistics labels and the recent
  activity label. A line of the recent activity label is kept as the triple of texts
  that the code joins with dashes.
\<close>

record dashboard =
  stat_today :: nat
  stat_total :: nat
  stat_images :: nat
  stat_dr :: nat
  recent_activity :: "(string \<times> string \<times> string) list"

definition initial_dashboard :: dashboard where
  "initial_dashboard =
     \<lparr>stat_today = 0, stat_total = 0, stat_images = 0, stat_dr = 0, recent_activity = []\<rparr>"

text \<open>
  The state the operations work on: the durable table \<^verbatim>\<open>patient_records\<close> of the
  database file (rows in rowid order), the list \<^verbatim>\<open>self._all_records\<close>, the text of the
  cells of the table widget, what has been printed, whether \<^verbatim>\<open>parent_app\<close> has been
  attached, and the labels of the dashboard.
\<close>

record app_state =
  db :: "row list"
  all_records :: "row list"
  patient_table :: "string list list"
  console :: "string list"
  parent_app :: bool
  stats :: dashboard

text \<open>How a call comes back to its caller: it returns (always \<^verbatim>\<open>None\<close> here) or raises.\<close>

datatype outcome = Returns_None | Raises string

fun reported :: "outcome \<Rightarrow> bool" where
  "reported Returns_None = False"
| "reported (Raises e) = True"

subsection \<open>The database calls\<close>

text \<open>
  The \<^verbatim>\<open>sqlite3\<close> calls of one operation, with the exception they raise, if any, given
  as \<open>fault\<close> (a locked or unreadable file, a missing table, a violated constraint, a
  full disk). The statement binds fourteen parameters, so a list of another length is
  refused by the driver, and so is an integer outside the signed 64-bit range. The
  declaration of the table is in \<^verbatim>\<open>auth.init_db\<close>, which is not among the sources:
  \<open>stored_as\<close> is what the table keeps of the values bound to a row (the conversions
  of the declared column types).
\<close>

definition sqlite_integer :: "py_value \<Rightarrow> bool" where
  "sqlite_integer v = (case v of PInt i \<Rightarrow> - (2 ^ 63) \<le> i \<and> i < 2 ^ 63 | _ \<Rightarrow> True)"

definition db_insert :: "(row \<Rightarrow> row) \<Rightarrow> string option \<Rightarrow> row \<Rightarrow> row list \<Rightarrow> string + row list" where
  "db_insert stored_as fault patient_data tbl =
     (case fault of
        Some e \<Rightarrow> Inl e
      | None \<Rightarrow>
          if length patient_data \<noteq> 14 then Inl ''Incorrect number of bindings supplied''
          else if \<not> list_all sqlite_integer patient_data
          then Inl ''Python int too large to convert to SQLite INTEGER''
          else Inr (tbl @ [stored_as patient_data]))"

definition db_select :: "string option \<Rightarrow> row list \<Rightarrow> string + row list" where
  "db_select fault tbl = (case fault of Some e \<Rightarrow> Inl e | None \<Rightarrow> Inr tbl)"

subsection \<open>\<^verbatim>\<open>EyeShieldApp.refresh_dashboard\<close>\<close>

text \<open>\<^verbatim>\<open>table.item(r, c)\<close>: the text of the cell, or nothing where no item was set.\<close>

definition table_item :: "string list list \<Rightarrow> nat \<Rightarrow> nat \<Rightarrow> string option" where
  "table_item tbl r c =
     (if r < length tbl \<and> c < length (tbl ! r) then Some (tbl ! r ! c) else None)"

definition item_text :: "string option \<Rightarrow> string" where
  "item_text item = (case item of Some t \<Rightarrow> t | None \<Rightarrow> '''')"

definition dr_positive :: "string list list \<Rightarrow> nat \<Rightarrow> bool" where
  "dr_positive tbl r =
     (case table_item tbl r 12 of Some t \<Rightarrow> sublist ''dr'' (py_lower t) | None \<Rightarrow> False)"

definition recent_line :: "string list list \<Rightarrow> nat \<Rightarrow> string \<times> string \<times> string" where
  "recent_line tbl r =
     (item_text (table_item tbl r 0), item_text (table_item tbl r 1), item_text (table_item tbl r 12))"

definition refresh_dashboard :: "string list list \<Rightarrow> dashboard" where
  "refresh_dashboard tbl =
     (let total = length tbl;
          todays = total;
          dr_count = length (filter (dr_positive tbl) [0..<total]);
          images = total;
          recent_lines = map (recent_line tbl) (rev [total - 5..<total])
      in \<lparr>stat_today = todays, stat_total = total, stat_images = images, stat_dr = dr_count,
          recent_activity = recent_lines\<rparr>)"

subsection \<open>\<^verbatim>\<open>PatientRecordsPage\<close>\<close>

text \<open>
  The test of \<^verbatim>\<open>_refresh_table\<close> on one record, for the search text already stripped
  and lowered.
\<close>

definition show_record :: "string \<Rightarrow> row \<Rightarrow> bool" where
  "show_record filter_text patient_data =
     (if filter_text = '''' then True
      else list_ex (\<lambda>val. val \<noteq> PNone \<and> sublist filter_text (py_lower (py_strip (py_str val))))
             patient_data)"

definition shown_records :: "string \<Rightarrow> row list \<Rightarrow> row list" where
  "shown_records filter_text records =
     filter (show_record (py_lower (py_strip filter_text))) records"

text \<open>
  The cells of one row of the widget: the table has fourteen columns, and an item set
  beyond them is dropped.
\<close>

definition table_row :: "row \<Rightarrow> string list" where
  "table_row patient_data = take 14 (map py_str patient_data)"

definition refresh_table :: "string \<Rightarrow> app_state \<Rightarrow> app_state" where
  "refresh_table filter_text s =
     (let tbl = map table_row (shown_records filter_text (all_records s));
          s1 = s\<lparr>patient_table := tbl\<rparr>
      in if parent_app s1 then s1\<lparr>stats := refresh_dashboard tbl\<rparr> else s1)"

definition filter_table :: "string \<Rightarrow> app_state \<Rightarrow> app_state" where
  "filter_table text s = refresh_table text s"

definition save_record_to_db ::
  "(row \<Rightarrow> row) \<Rightarrow> string option \<Rightarrow> row \<Rightarrow> app_state \<Rightarrow> outcome \<times> app_state" where
  "save_record_to_db stored_as fault patient_data s =
     (case db_insert stored_as fault patient_data (db s) of
        Inr tbl \<Rightarrow> (Returns_None, s\<lparr>db := tbl\<rparr>)
      | Inl e \<Rightarrow>
          (Returns_None, s\<lparr>console := console s @ [''Failed to save patient record: '' @ e]\<rparr>))"

definition load_records_from_db :: "string option \<Rightarrow> app_state \<Rightarrow> outcome \<times> app_state" where
  "load_records_from_db fault s =
     (case db_select fault (db s) of
        Inr rows \<Rightarrow> (Returns_None, refresh_table '''' (s\<lparr>all_records := rows\<rparr>))
      | Inl e \<Rightarrow>
          (Returns_None, s\<lparr>console := console s @ [''Failed to load patient records: '' @ e]\<rparr>))"

definition add_patient_record ::
  "(row \<Rightarrow> row) \<Rightarrow> string option \<Rightarrow> row \<Rightarrow> app_state \<Rightarrow> outcome \<times> app_state" where
  "add_patient_record stored_as fault patient_data s =
     (let s1 = s\<lparr>all_records := all_records s @ [patient_data]\<rparr>;
          s2 = snd (save_record_to_db stored_as fault patient_data s1)
      in (Returns_None, refresh_table '''' s2))"

text \<open>
  \<^verbatim>\<open>PatientRecordsPage.__init__\<close> on a database file holding \<open>tbl\<close>: an empty list, then
  the load. \<^verbatim>\<open>EyeShieldApp.__init__\<close> attaches itself as \<^verbatim>\<open>parent_app\<close> afterwards.
\<close>

definition new_page :: "row list \<Rightarrow> app_state" where
  "new_page tbl =
     \<lparr>db = tbl, all_records = [], patient_table = [], console = [], parent_app = False,
      stats = initial_dashboard\<rparr>"

definition start_page :: "string option \<Rightarrow> row list \<Rightarrow> app_state" where
  "start_page fault tbl = snd (load_records_from_db fault (new_page tbl))"

definition start_app :: "string option \<Rightarrow> row list \<Rightarrow> app_state" where
  "start_app fault tbl = (start_page fault tbl)\<lparr>parent_app := True\<rparr>"

subsection \<open>The table \<^verbatim>\<open>patient_records\<close>\<close>

text \<open>
  The columns named by the \<^verbatim>\<open>INSERT\<close> statement of \<^verbatim>\<open>save_record_to_db\<close> and by the
  \<^verbatim>\<open>SELECT\<close> statement of \<^verbatim>\<open>load_records_from_db\<close>, in the order of each statement.
\<close>

definition insert_columns :: "string list" where
  "insert_columns =
     [''patient_id'', ''name'', ''birthdate'', ''age'', ''sex'', ''contact'', ''eyes'', ''diabetes_type'',
      ''duration'', ''hba1c'', ''prev_treatment'', ''notes'', ''result'', ''confidence'']"

definition select_columns :: "string list" where
  "select_columns =
     [''patient_id'', ''name'', ''birthdate'', ''age'', ''sex'', ''contact'', ''eyes'', ''diabetes_type'',
      ''duration'', ''hba1c'', ''prev_treatment'', ''notes'', ''result'', ''confidence'']"

datatype column_type = Text_column | Integer_column

text \<open>
  Modelled from the spec: the declaration of the table \<^verbatim>\<open>patient_records\<close>, made by
  \<^verbatim>\<open>auth.init_db\<close>, which is not among the sources. The specification gives the table
  the fields of its data model as columns, and types the age and the duration as
  integers and every other field as text.
\<close>

definition column_type_of :: "string \<Rightarrow> column_type" where
  "column_type_of c = (if c = ''age'' \<or> c = ''duration'' then Integer_column else Text_column)"

text \<open>
  What a column keeps of a value bound to it. SQLite stores a text or a null bound to a
  text column, and an integer, a null or the empty text bound to an integer column, as
  they are. What it makes of any other value (an integer in a text column, a text other
  than the empty one in an integer column) is the parameter \<open>convert\<close>.
\<close>

definition column_keeps :: "column_type \<Rightarrow> py_value \<Rightarrow> bool" where
  "column_keeps ty v =
     (case ty of
        Text_column \<Rightarrow> (case v of PInt i \<Rightarrow> False | _ \<Rightarrow> True)
      | Integer_column \<Rightarrow> (case v of PStr t \<Rightarrow> t = '''' | _ \<Rightarrow> True))"

definition column_store ::
  "(column_type \<Rightarrow> py_value \<Rightarrow> py_value) \<Rightarrow> column_type \<Rightarrow> py_value \<Rightarrow> py_value" where
  "column_store convert ty v = (if column_keeps ty v then v else convert ty v)"

text \<open>
  The row the \<^verbatim>\<open>SELECT\<close> reads back for the values the \<^verbatim>\<open>INSERT\<close> bound: each column of
  the \<^verbatim>\<open>SELECT\<close> gives what the table kept of the value bound to the column of that name.
\<close>

definition read_back :: "(column_type \<Rightarrow> py_value \<Rightarrow> py_value) \<Rightarrow> row \<Rightarrow> row" where
  "read_back convert patient_data =
     map (\<lambda>c. case map_of (zip insert_columns patient_data) c of
                 Some v \<Rightarrow> column_store convert (column_type_of c) v
               | None \<Rightarrow> PNone)
       select_columns"

text \<open>
  A record the insert accepts and the table keeps as it is: fourteen values, integers
  within the range of the database, each value of the type of its column.
\<close>

definition kept_by_table :: "row \<Rightarrow> bool" where
  "kept_by_table r =
     (length r = 14 \<and> list_all sqlite_integer r
      \<and> list_all (\<lambda>(c, v). column_keeps (column_type_of c) v) (zip insert_columns r))"

subsection \<open>\<^verbatim>\<open>export_to_csv\<close> and the \<^verbatim>\<open>csv\<close> module\<close>

text \<open>
  \<^verbatim>\<open>csv.writer(f)\<close> with the default dialect: delimiter comma, quote character
  double quote, doubled inside a quoted field, line terminator CR LF, minimal quoting.
  \<^verbatim>\<open>None\<close> is written as the empty text, any other value as its \<^verbatim>\<open>str\<close>. A field is
  quoted when it holds the delimiter, the quote character, CR or LF; a record made of
  one empty field is written as a pair of quotes.
\<close>

definition CR :: char where
  "CR = CHR 0x0D"

definition LF :: char where
  "LF = CHR 0x0A"

definition csv_text :: "py_value \<Rightarrow> string" where
  "csv_text v = (case v of PNone \<Rightarrow> '''' | _ \<Rightarrow> py_str v)"

definition csv_special :: "char \<Rightarrow> bool" where
  "csv_special c = (c = CHR '','' \<or> c = CHR 0x22 \<or> c = CR \<or> c = LF)"

fun csv_escape :: "string \<Rightarrow> string" where
  "csv_escape [] = []"
| "csv_escape (c # cs) = (if c = CHR 0x22 then CHR 0x22 # CHR 0x22 # csv_escape cs else c # csv_escape cs)"

definition write_field :: "string \<Rightarrow> string" where
  "write_field t = (if list_ex csv_special t then CHR 0x22 # csv_escape t @ [CHR 0x22] else t)"

fun join_fields :: "string list \<Rightarrow> string" where
  "join_fields [] = []"
| "join_fields [t] = write_field t"
| "join_fields (t # ts) = write_field t @ CHR '','' # join_fields ts"

definition writerow_text :: "string list \<Rightarrow> string" where
  "writerow_text ts = (if ts = [''''] then [CHR 0x22, CHR 0x22] else join_fields ts) @ [CR, LF]"

definition writerow :: "row \<Rightarrow> string" where
  "writerow r = writerow_text (map csv_text r)"

definition header_labels :: "string list" where
  "header_labels =
     [''Patient ID'', ''Name'', ''Birthdate'', ''Age'', ''Sex'', ''Contact'', ''Eye(s)'',
      ''Diabetes Type'', ''Duration (yrs)'', ''HbA1c'', ''Prev Treatment'', ''Notes'', ''Result'',
      ''Confidence'']"

text \<open>What a completed \<^verbatim>\<open>export_to_csv\<close> has written to the chosen file.\<close>

definition export_text :: "app_state \<Rightarrow> string" where
  "export_text s = writerow (map PStr header_labels) @ concat (map writerow (all_records s))"

datatype export_result = Export_cancelled | Exported string string | Export_failed string

text \<open>
  \<open>path\<close> is what the file dialog returned (empty when it was dismissed), \<open>fault\<close> the
  exception raised while the file was opened or written, if any.
\<close>

definition export_to_csv :: "string \<Rightarrow> string option \<Rightarrow> app_state \<Rightarrow> export_result" where
  "export_to_csv path fault s =
     (if path = '''' then Export_cancelled
      else case fault of
             None \<Rightarrow> Exported path (export_text s)
           | Some e \<Rightarrow> Export_failed (''Failed to export: '' @ e))"

text \<open>
  The counterpart of the writer, \<^verbatim>\<open>csv.reader\<close> with the same dialect, on a file opened
  with \<^verbatim>\<open>newline=''\<close>. The repository holds no parser of its own; this is the reader
  of the library that wrote the file. It is a state machine fed the characters of each
  line and then an end-of-line marker; a line of the file ends after LF, after a CR
  that no LF follows, and at the end of the text. A character added to a field that
  already holds 131072 characters, the limit of the library, is refused.
\<close>

datatype reader_mode =
  START_RECORD | START_FIELD | IN_FIELD | IN_QUOTED_FIELD | QUOTE_IN_QUOTED_FIELD | EAT_CRNL

record reader =
  mode :: reader_mode
  cur_field :: string
  rec_fields :: "string list"

definition parse_reset :: reader where
  "parse_reset = \<lparr>mode = START_RECORD, cur_field = [], rec_fields = []\<rparr>"

definition parse_save_field :: "reader \<Rightarrow> reader" where
  "parse_save_field rd = rd\<lparr>rec_fields := rec_fields rd @ [cur_field rd], cur_field := []\<rparr>"

definition field_limit :: nat where
  "field_limit = 131072"

definition parse_add_char :: "char \<Rightarrow> reader \<Rightarrow> string + reader" where
  "parse_add_char c rd =
     (if field_limit \<le> length (cur_field rd) then Inl ''field larger than field limit (131072)''
      else Inr (rd\<lparr>cur_field := cur_field rd @ [c]\<rparr>))"

definition then_mode :: "reader_mode \<Rightarrow> string + reader \<Rightarrow> string + reader" where
  "then_mode m res = (case res of Inl e \<Rightarrow> Inl e | Inr rd \<Rightarrow> Inr (rd\<lparr>mode := m\<rparr>))"

definition start_field_char :: "reader \<Rightarrow> char \<Rightarrow> string + reader" where
  "start_field_char rd c =
     (if c = LF \<or> c = CR then Inr ((parse_save_field rd)\<lparr>mode := EAT_CRNL\<rparr>)
      else if c = CHR 0x22 then Inr (rd\<lparr>mode := IN_QUOTED_FIELD\<rparr>)
      else if c = CHR '','' then Inr (parse_save_field rd)
      else then_mode IN_FIELD (parse_add_char c rd))"

definition parse_process_char :: "reader \<Rightarrow> char \<Rightarrow> string + reader" where
  "parse_process_char rd c =
     (case mode rd of
        START_RECORD \<Rightarrow>
          if c = LF \<or> c = CR then Inr (rd\<lparr>mode := EAT_CRNL\<rparr>)
          else start_field_char (rd\<lparr>mode := START_FIELD\<rparr>) c
      | START_FIELD \<Rightarrow> start_field_char rd c
      | IN_FIELD \<Rightarrow>
          if c = LF \<or> c = CR then Inr ((parse_save_field rd)\<lparr>mode := EAT_CRNL\<rparr>)
          else if c = CHR '','' then Inr ((parse_save_field rd)\<lparr>mode := START_FIELD\<rparr>)
          else parse_add_char c rd
      | IN_QUOTED_FIELD \<Rightarrow>
          if c = CHR 0x22 then Inr (rd\<lparr>mode := QUOTE_IN_QUOTED_FIELD\<rparr>)
          else parse_add_char c rd
      | QUOTE_IN_QUOTED_FIELD \<Rightarrow>
          if c = CHR 0x22 then then_mode IN_QUOTED_FIELD (parse_add_char c rd)
          else if c = CHR '','' then Inr ((parse_save_field rd)\<lparr>mode := START_FIELD\<rparr>)
          else if c = LF \<or> c = CR then Inr ((parse_save_field rd)\<lparr>mode := EAT_CRNL\<rparr>)
          else then_mode IN_FIELD (parse_add_char c rd)
      | EAT_CRNL \<Rightarrow>
          if c = LF \<or> c = CR then Inr rd
          else Inl ''new-line character seen in unquoted field'')"

definition parse_process_eol :: "reader \<Rightarrow> reader" where
  "parse_process_eol rd =
     (case mode rd of
        START_RECORD \<Rightarrow> rd
      | START_FIELD \<Rightarrow> (parse_save_field rd)\<lparr>mode := START_RECORD\<rparr>
      | IN_FIELD \<Rightarrow> (parse_save_field rd)\<lparr>mode := START_RECORD\<rparr>
      | IN_QUOTED_FIELD \<Rightarrow> rd
      | QUOTE_IN_QUOTED_FIELD \<Rightarrow> (parse_save_field rd)\<lparr>mode := START_RECORD\<rparr>
      | EAT_CRNL \<Rightarrow> rd\<lparr>mode := START_RECORD\<rparr>)"

definition line_ends :: "char \<Rightarrow> string \<Rightarrow> bool" where
  "line_ends c rest = (c = LF \<or> (c = CR \<and> (case rest of [] \<Rightarrow> True | d # _ \<Rightarrow> d \<noteq> LF)) \<or> rest = [])"

definition emit :: "string list \<Rightarrow> string + string list list \<Rightarrow> string + string list list" where
  "emit r res = (case res of Inl e \<Rightarrow> Inl e | Inr rs \<Rightarrow> Inr (r # rs))"

fun reader_rows :: "reader \<Rightarrow> string \<Rightarrow> string + string list list" where
  "reader_rows rd [] =
     (if cur_field rd \<noteq> [] \<or> mode rd = IN_QUOTED_FIELD then Inr [rec_fields (parse_save_field rd)]
      else Inr [])"
| "reader_rows rd (c # cs) =
     (case parse_process_char rd c of
        Inl e \<Rightarrow> Inl e
      | Inr rd1 \<Rightarrow>
          if line_ends c cs then
            (let rd2 = parse_process_eol rd1
             in if mode rd2 = START_RECORD then emit (rec_fields rd2) (reader_rows parse_reset cs)
                else reader_rows rd2 cs)
          else reader_rows rd1 cs)"

definition csv_reader :: "string \<Rightarrow> string + string list list" where
  "csv_reader text = reader_rows parse_reset text"

subsection \<open>What the specification describes\<close>

text \<open>The field names of the data model, in the order of its table.\<close>

definition spec_field_names :: "string list" where
  "spec_field_names =
     [''patient_id'', ''name'', ''birthdate'', ''age'', ''sex'', ''contact'', ''eye'', ''diabetes_type'',
      ''duration_years'', ''hba1c'', ''prev_treatment'', ''notes'', ''result'', ''confidence'']"

text \<open>
  The export as the specification words it for the records browser: a header of the
  field names, then the records of the view that the search text selects.
\<close>

definition spec_export :: "string \<Rightarrow> row list \<Rightarrow> string" where
  "spec_export query view =
     writerow (map PStr spec_field_names) @ concat (map writerow (shown_records query view))"


subsection \<open>The events of the records page\<close>

text \<open>
  What can happen to the page once it is built: a screening is saved, the search text
  changes, the export button is pressed, a row is opened in the details dialog. The
  load is called by the constructor only.
\<close>

datatype page_event =
  Add_record "string option" row
| Search string
| Export_csv string "string option"
| Show_details nat nat

fun page_step :: "(row \<Rightarrow> row) \<Rightarrow> app_state \<Rightarrow> page_event \<Rightarrow> app_state" where
  "page_step stored_as s (Add_record fault patient_data) =
     snd (add_patient_record stored_as fault patient_data s)"
| "page_step stored_as s (Search text) = filter_table text s"
| "page_step stored_as s (Export_csv path fault) = s"
| "page_step stored_as s (Show_details r c) = s"

definition page_run :: "(row \<Rightarrow> row) \<Rightarrow> app_state \<Rightarrow> page_event list \<Rightarrow> app_state" where
  "page_run stored_as s evs = foldl (page_step stored_as) s evs"

section \<open>The screening form\<close>

text \<open>
  The widgets \<^verbatim>\<open>save_screening\<close> reads. The date of birth is a year, a month and a day;
  the age is the value of a spin box of range 0 to 120; the HbA1c spin box has one
  decimal and range 4.0 to 15.0, so its value is held in tenths.
\<close>

type_synonym qdate = "int \<times> int \<times> int"

record screening_form =
  p_id :: string
  p_name :: string
  p_dob :: qdate
  p_age :: int
  p_sex :: string
  p_contact :: string
  p_eye :: string
  diabetes_type :: string
  diabetes_duration :: int
  hba1c :: nat
  prev_treatment :: bool
  notes_text :: string
  r_class :: string
  r_conf :: string

definition minimumDate :: qdate where
  "minimumDate = (2000, 1, 1)"

text \<open>\<^verbatim>\<open>QSpinBox.setValue\<close> keeps the value inside the range of the box.\<close>

definition spin_value :: "int \<Rightarrow> int \<Rightarrow> int \<Rightarrow> int" where
  "spin_value lo hi v = max lo (min hi v)"

definition update_age_from_dob :: "qdate \<Rightarrow> qdate \<Rightarrow> screening_form \<Rightarrow> screening_form" where
  "update_age_from_dob today date f =
     (if date = minimumDate then f\<lparr>p_age := spin_value 0 120 0\<rparr>
      else
        (case (today, date) of
           ((ty, tm, td), (dy, dm, dd)) \<Rightarrow>
             (let age = ty - dy;
                  age = (if tm < dm \<or> (tm = dm \<and> td < dd) then age - 1 else age)
              in f\<lparr>p_age := spin_value 0 120 (max 0 age)\<rparr>)))"

text \<open>\<^verbatim>\<open>QDateEdit.setDate\<close> followed by the \<^verbatim>\<open>dateChanged\<close> signal.\<close>

definition set_dob :: "qdate \<Rightarrow> qdate \<Rightarrow> screening_form \<Rightarrow> screening_form" where
  "set_dob today date f = update_age_from_dob today date (f\<lparr>p_dob := date\<rparr>)"

definition two_digits :: "int \<Rightarrow> string" where
  "two_digits n = (if n < 10 then CHR ''0'' # int_str n else int_str n)"

definition four_digits :: "int \<Rightarrow> string" where
  "four_digits n = replicate (4 - length (int_str n)) CHR ''0'' @ int_str n"

text \<open>\<^verbatim>\<open>date.toString("yyyy-MM-dd")\<close>\<close>

definition date_text :: "qdate \<Rightarrow> string" where
  "date_text d = (case d of (y, m, dd) \<Rightarrow> four_digits y @ ''-'' @ two_digits m @ ''-'' @ two_digits dd)"

text \<open>\<^verbatim>\<open>f"{value:.1f}%"\<close> on a value held in tenths.\<close>

definition hba1c_text :: "nat \<Rightarrow> string" where
  "hba1c_text k = nat_str (k div 10) @ ''.'' @ nat_str (k mod 10) @ ''%''"

text \<open>
  \<^verbatim>\<open>save_screening\<close> up to the list it builds: nothing when the name is blank, else
  the record handed to the records page.
\<close>

definition save_screening :: "screening_form \<Rightarrow> row option" where
  "save_screening f =
     (let name = py_strip (p_name f) in
      if name = '''' then None
      else
        (let pid = p_id f;
             dob_str = (if p_dob f = minimumDate then '''' else date_text (p_dob f));
             age = p_age f;
             sex = p_sex f;
             contact = py_strip (p_contact f);
             eye = p_eye f;
             dtype = diabetes_type f;
             duration = diabetes_duration f;
             hb = hba1c_text (hba1c f);
             prev = (if prev_treatment f then ''Yes'' else ''No'');
             nts = py_strip (notes_text f);
             result = r_class f;
             confidence = r_conf f
         in Some
              [PStr pid, PStr name, PStr dob_str, (if age > 0 then PInt age else PStr ''''),
               PStr sex, PStr contact, PStr eye, PStr (if dtype \<noteq> ''Select'' then dtype else ''''),
               PInt duration, PStr hb, PStr prev, PStr nts, PStr result, PStr confidence]))"

text \<open>The rest of \<^verbatim>\<open>save_screening\<close>, with the records page wired in by the dashboard.\<close>

definition save_screening_to_page ::
  "(row \<Rightarrow> row) \<Rightarrow> string option \<Rightarrow> screening_form \<Rightarrow> app_state \<Rightarrow> app_state" where
  "save_screening_to_page stored_as fault f s =
     (case save_screening f of
        None \<Rightarrow> s
      | Some patient_data \<Rightarrow> snd (add_patient_record stored_as fault patient_data s))"

definition is_digit :: "char \<Rightarrow> bool" where
  "is_digit c = (let n = (of_char c :: nat) in 48 \<le> n \<and> n \<le> 57)"

text \<open>A number with one decimal followed by the percent sign.\<close>

definition one_decimal_percent :: "string \<Rightarrow> bool" where
  "one_decimal_percent t =
     (case rev t of
        p # d # dot # ip \<Rightarrow>
          p = CHR ''%'' \<and> is_digit d \<and> dot = CHR ''.'' \<and> ip \<noteq> [] \<and> list_all is_digit ip
      | _ \<Rightarrow> False)"

section \<open>The scenario of two records\<close>

definition jane_doe :: row where
  "jane_doe =
     [PStr ''ES-20250101-0001'', PStr ''Jane Doe'', PStr ''2001-05-17'', PInt 23, PStr ''Female'',
      PStr '''', PStr ''Both Eyes'', PStr ''Type 2'', PInt 5, PStr ''7.0%'', PStr ''No'', PStr '''',
      PStr ''No DR Detected'', PStr ''Confidence: 93.8%'']"

definition john_roe :: row where
  "john_roe =
     [PStr ''ES-20250101-0002'', PStr ''John Roe'', PStr ''2002-11-03'', PInt 22, PStr ''Male'',
      PStr '''', PStr ''Left Eye'', PStr ''Type 1'', PInt 9, PStr ''8.4%'', PStr ''Yes'', PStr '''',
      PStr ''Mild DR'', PStr ''Confidence: 93.8%'']"

definition two_records :: app_state where
  "two_records =
     snd (add_patient_record id None john_roe
       (snd (add_patient_record id None jane_doe (start_app None []))))"

text \<open>A record whose notes hold a comma, quotes and a line break.\<close>

definition quoted_record :: row where
  "quoted_record =
     jane_doe[11 := PStr (''wears '' @ [CHR 0x22] @ ''contacts'' @ [CHR 0x22] @ '', left eye''
                          @ [CR, LF] @ ''recall in 6 months'')]"

text \<open>
  Two forms filled in on 1 June 2025: for a patient born less than a year before, and
  for a patient born in 2001 with a diabetes type chosen and a previous treatment.
\<close>

definition example_form :: screening_form where
  "example_form =
     set_dob (2025, 6, 1) (2025, 1, 15)
       \<lparr>p_id = ''ES-20250601-0001'', p_name = '' Jane Doe '', p_dob = minimumDate, p_age = 0,
        p_sex = ''Female'', p_contact = '''', p_eye = ''Both Eyes'', diabetes_type = ''Select'',
        diabetes_duration = 5, hba1c = 70, prev_treatment = False, notes_text = '''',
        r_class = ''No DR Detected'', r_conf = ''Confidence: 93.8%''\<rparr>"

definition adult_form :: screening_form where
  "adult_form =
     set_dob (2025, 6, 1) (2001, 7, 15)
       \<lparr>p_id = ''ES-20250601-0002'', p_name = ''John Roe'', p_dob = minimumDate, p_age = 0,
        p_sex = ''Male'', p_contact = '' john@example.org '', p_eye = ''Left Eye'',
        diabetes_type = ''Type 1'', diabetes_duration = 9, hba1c = 84, prev_treatment = True,
        notes_text = '''', r_class = ''No DR Detected'', r_conf = ''Confidence: 93.8%''\<rparr>"

text \<open>The page after an append of the first record whose write failed, on an empty database.\<close>

definition failed_append :: app_state where
  "failed_append =
     snd (add_patient_record id (Some ''disk I/O error'') jane_doe (start_app None []))"

section \<open>Facts about the records page\<close>

lemma refresh_table_keeps [simp]:
  "db (refresh_table q s) = db s"
  "all_records (refresh_table q s) = all_records s"
  "console (refresh_table q s) = console s"
  "parent_app (refresh_table q s) = parent_app s"
  by (simp_all add: refresh_table_def Let_def)

lemma patient_table_refresh [simp]:
  "patient_table (refresh_table q s) = map table_row (shown_records q (all_records s))"
  by (simp add: refresh_table_def Let_def)

lemma stats_refresh:
  "stats (refresh_table q s) =
     (if parent_app s then refresh_dashboard (map table_row (shown_records q (all_records s)))
      else stats s)"
  by (simp add: refresh_table_def Let_def)

lemma shown_records_empty [simp]: "shown_records '''' rs = rs"
  by (simp add: shown_records_def py_strip_def py_lower_def show_record_def)

lemma shown_records_append:
  "shown_records q (xs @ ys) = shown_records q xs @ shown_records q ys"
  by (simp add: shown_records_def)

lemma save_record_view [simp]:
  "all_records (snd (save_record_to_db stored_as fault r s)) = all_records s"
  "parent_app (snd (save_record_to_db stored_as fault r s)) = parent_app s"
  by (simp_all add: save_record_to_db_def split: sum.splits)

lemma add_record_view [simp]:
  "all_records (snd (add_patient_record stored_as fault r s)) = all_records s @ [r]"
  by (simp add: add_patient_record_def Let_def)

lemma add_record_table [simp]:
  "patient_table (snd (add_patient_record stored_as fault r s)) = map table_row (all_records s @ [r])"
  by (simp add: add_patient_record_def Let_def)

lemma add_record_db:
  "db (snd (add_patient_record stored_as fault r s)) =
     (case db_insert stored_as fault r (db s) of Inr tbl \<Rightarrow> tbl | Inl e \<Rightarrow> db s)"
  by (simp add: add_patient_record_def Let_def save_record_to_db_def split: sum.splits)

lemma add_record_console:
  "console (snd (add_patient_record stored_as fault r s)) =
     (case db_insert stored_as fault r (db s) of
        Inr tbl \<Rightarrow> console s
      | Inl e \<Rightarrow> console s @ [''Failed to save patient record: '' @ e])"
  by (simp add: add_patient_record_def Let_def save_record_to_db_def split: sum.splits)

lemma add_record_returns: "fst (add_patient_record stored_as fault r s) = Returns_None"
  by (simp add: add_patient_record_def Let_def)

lemma load_ok:
  "load_records_from_db None s = (Returns_None, refresh_table '''' (s\<lparr>all_records := db s\<rparr>))"
  by (simp add: load_records_from_db_def db_select_def)

lemma load_failed:
  "load_records_from_db (Some e) s =
     (Returns_None, s\<lparr>console := console s @ [''Failed to load patient records: '' @ e]\<rparr>)"
  by (simp add: load_records_from_db_def db_select_def)

lemma load_returns: "fst (load_records_from_db fault s) = Returns_None"
  by (cases fault) (simp_all add: load_ok load_failed)

lemma start_page_db [simp]: "db (start_page fault tbl) = tbl"
  by (cases fault) (simp_all add: start_page_def load_ok load_failed new_page_def)

lemma start_page_view: "all_records (start_page None tbl) = tbl"
  by (simp add: start_page_def load_ok new_page_def)

lemma page_step_prefix: "prefix (all_records s) (all_records (page_step stored_as s ev))"
  by (cases ev) (simp_all add: filter_table_def)

lemma page_run_prefix: "prefix (all_records s) (all_records (page_run stored_as s evs))"
  unfolding page_run_def
proof (induction evs arbitrary: s)
  case Nil
  show ?case by simp
next
  case (Cons ev evs)
  have "prefix (all_records s) (all_records (page_step stored_as s ev))"
    by (rule page_step_prefix)
  also have "prefix \<dots> (all_records (foldl (page_step stored_as) (page_step stored_as s ev) evs))"
    by (rule Cons.IH)
  finally show ?case by simp
qed

lemma page_run_appends:
  assumes "\<forall>r\<in>set rs. length r = 14 \<and> list_all sqlite_integer r \<and> stored_as r = r"
  shows "db (page_run stored_as s (map (Add_record None) rs)) = db s @ rs"
  using assms unfolding page_run_def
proof (induction rs arbitrary: s)
  case Nil
  show ?case by simp
next
  case (Cons r rs)
  then show ?case by (simp add: add_record_db db_insert_def)
qed

subsection \<open>Stripping, lowering and the substring test\<close>

lemma is_space_lower [simp]: "is_space (lower_char c) = is_space c"
proof -
  have "(of_char c :: nat) < 256" by simp
  then show ?thesis
    by (auto simp: is_space_def lower_char_def Let_def)
qed








subsection \<open>The reader on what the writer wrote\<close>

lemma crlf_distinct [simp]:
  "CR \<noteq> LF" "LF \<noteq> CR" "CR \<noteq> CHR '',''" "LF \<noteq> CHR '',''" "CR \<noteq> CHR 0x22" "LF \<noteq> CHR 0x22"
  "CHR '','' \<noteq> CR" "CHR '','' \<noteq> LF" "CHR 0x22 \<noteq> CR" "CHR 0x22 \<noteq> LF"
  by (simp_all add: CR_def LF_def)

lemma field_limit_pos [simp]: "0 < field_limit" "field_limit \<noteq> 0"
  by (simp_all add: field_limit_def)

lemma reader_row_end:
  assumes "m = IN_FIELD \<or> m = QUOTE_IN_QUOTED_FIELD \<or> m = START_FIELD"
  shows "reader_rows \<lparr>mode = m, cur_field = cf, rec_fields = fs\<rparr> (CR # LF # rest)
         = emit (fs @ [cf]) (reader_rows parse_reset rest)"
  using assms
  by (auto simp: parse_process_char_def start_field_char_def parse_save_field_def line_ends_def
      parse_process_eol_def Let_def)

lemma reader_empty_row:
  "reader_rows parse_reset (CR # LF # rest) = emit [] (reader_rows parse_reset rest)"
  by (simp add: parse_reset_def parse_process_char_def line_ends_def parse_process_eol_def Let_def)

lemma reader_comma:
  assumes "m = IN_FIELD \<or> m = QUOTE_IN_QUOTED_FIELD \<or> m = START_FIELD \<or> m = START_RECORD"
    and "rest \<noteq> []"
  shows "reader_rows \<lparr>mode = m, cur_field = cf, rec_fields = fs\<rparr> (CHR '','' # rest)
         = reader_rows \<lparr>mode = START_FIELD, cur_field = [], rec_fields = fs @ [cf]\<rparr> rest"
  using assms
  by (auto simp: parse_process_char_def start_field_char_def parse_save_field_def line_ends_def)

lemma reader_unquoted_body:
  assumes "\<not> list_ex csv_special t" and "rest \<noteq> []" and "length cf + length t \<le> field_limit"
  shows "reader_rows \<lparr>mode = IN_FIELD, cur_field = cf, rec_fields = fs\<rparr> (t @ rest)
         = reader_rows \<lparr>mode = IN_FIELD, cur_field = cf @ t, rec_fields = fs\<rparr> rest"
  using assms
proof (induction t arbitrary: cf)
  case Nil
  show ?case by simp
next
  case (Cons c t)
  from Cons.prems have t: "\<not> list_ex csv_special t" and "\<not> csv_special c"
    by simp_all
  then have c: "c \<noteq> CR" "c \<noteq> LF" "c \<noteq> CHR '',''"
    by (simp_all add: csv_special_def)
  from Cons.prems(3) have room: "\<not> field_limit \<le> length cf"
    and rest: "length (cf @ [c]) + length t \<le> field_limit"
    by simp_all
  have "reader_rows \<lparr>mode = IN_FIELD, cur_field = cf, rec_fields = fs\<rparr> ((c # t) @ rest)
        = reader_rows \<lparr>mode = IN_FIELD, cur_field = cf @ [c], rec_fields = fs\<rparr> (t @ rest)"
    using c room Cons.prems(2)
    by (simp add: parse_process_char_def parse_add_char_def line_ends_def)
  also have "\<dots> = reader_rows \<lparr>mode = IN_FIELD, cur_field = (cf @ [c]) @ t, rec_fields = fs\<rparr> rest"
    by (rule Cons.IH [OF t Cons.prems(2) rest])
  finally show ?case by simp
qed

lemma reader_unquoted_start:
  assumes "m = START_FIELD \<or> m = START_RECORD" and "\<not> csv_special c" and "rest \<noteq> []"
  shows "reader_rows \<lparr>mode = m, cur_field = [], rec_fields = fs\<rparr> (c # rest)
         = reader_rows \<lparr>mode = IN_FIELD, cur_field = [c], rec_fields = fs\<rparr> rest"
  using assms
  by (auto simp: parse_process_char_def start_field_char_def parse_add_char_def then_mode_def
      line_ends_def csv_special_def)

lemma reader_quoted_body:
  assumes "rest \<noteq> []" and "length cf + length t \<le> field_limit"
  shows "reader_rows \<lparr>mode = IN_QUOTED_FIELD, cur_field = cf, rec_fields = fs\<rparr>
           (csv_escape t @ CHR 0x22 # rest)
         = reader_rows \<lparr>mode = QUOTE_IN_QUOTED_FIELD, cur_field = cf @ t, rec_fields = fs\<rparr> rest"
  using assms(2)
proof (induction t arbitrary: cf)
  case Nil
  show ?case using assms(1)
    by (simp add: parse_process_char_def line_ends_def)
next
  case (Cons c t)
  from Cons.prems have room: "\<not> field_limit \<le> length cf"
    and rest: "length (cf @ [c]) + length t \<le> field_limit"
    by simp_all
  have "reader_rows \<lparr>mode = IN_QUOTED_FIELD, cur_field = cf, rec_fields = fs\<rparr>
          (csv_escape (c # t) @ CHR 0x22 # rest)
        = reader_rows \<lparr>mode = IN_QUOTED_FIELD, cur_field = cf @ [c], rec_fields = fs\<rparr>
          (csv_escape t @ CHR 0x22 # rest)"
  proof (cases "c = CHR 0x22")
    case True
    then show ?thesis using room
      by (simp add: parse_process_char_def parse_add_char_def then_mode_def line_ends_def)
  next
    case False
    then show ?thesis using room
      by (simp add: parse_process_char_def parse_add_char_def parse_process_eol_def Let_def)
  qed
  also have "\<dots> = reader_rows \<lparr>mode = QUOTE_IN_QUOTED_FIELD, cur_field = (cf @ [c]) @ t,
                                   rec_fields = fs\<rparr> rest"
    by (rule Cons.IH [OF rest])
  finally show ?case by simp
qed

lemma reader_quoted_start:
  assumes "m = START_FIELD \<or> m = START_RECORD" and "rest \<noteq> []"
  shows "reader_rows \<lparr>mode = m, cur_field = [], rec_fields = fs\<rparr> (CHR 0x22 # rest)
         = reader_rows \<lparr>mode = IN_QUOTED_FIELD, cur_field = [], rec_fields = fs\<rparr> rest"
  using assms
  by (auto simp: parse_process_char_def start_field_char_def line_ends_def)

lemma reader_field:
  assumes "m = START_FIELD \<or> m = START_RECORD" and "rest \<noteq> []" and "length t \<le> field_limit"
  shows "reader_rows \<lparr>mode = m, cur_field = [], rec_fields = fs\<rparr> (write_field t @ rest)
         = reader_rows \<lparr>mode = (if list_ex csv_special t then QUOTE_IN_QUOTED_FIELD
                                 else if t = [] then m else IN_FIELD),
                         cur_field = t, rec_fields = fs\<rparr> rest"
proof (cases "list_ex csv_special t")
  case True
  have "reader_rows \<lparr>mode = m, cur_field = [], rec_fields = fs\<rparr> (write_field t @ rest)
        = reader_rows \<lparr>mode = IN_QUOTED_FIELD, cur_field = [], rec_fields = fs\<rparr>
            (csv_escape t @ CHR 0x22 # rest)"
    using True reader_quoted_start [OF assms(1), of "csv_escape t @ CHR 0x22 # rest" fs]
    by (simp add: write_field_def)
  also have "\<dots> = reader_rows \<lparr>mode = QUOTE_IN_QUOTED_FIELD, cur_field = [] @ t, rec_fields = fs\<rparr> rest"
    by (rule reader_quoted_body [OF assms(2)]) (use assms(3) in simp)
  finally show ?thesis using True by simp
next
  case False
  show ?thesis
  proof (cases t)
    case Nil
    then show ?thesis by (simp add: write_field_def)
  next
    case (Cons c t')
    with False have c: "\<not> csv_special c" and t': "\<not> list_ex csv_special t'" by simp_all
    have ne: "t' @ rest \<noteq> []" using assms(2) by simp
    have len: "length [c] + length t' \<le> field_limit" using assms(3) Cons by simp
    have "reader_rows \<lparr>mode = m, cur_field = [], rec_fields = fs\<rparr> (write_field t @ rest)
          = reader_rows \<lparr>mode = IN_FIELD, cur_field = [c], rec_fields = fs\<rparr> (t' @ rest)"
      using False Cons reader_unquoted_start [OF assms(1) c ne, of fs]
      by (simp add: write_field_def)
    also have "\<dots> = reader_rows \<lparr>mode = IN_FIELD, cur_field = [c] @ t', rec_fields = fs\<rparr> rest"
      by (rule reader_unquoted_body [OF t' assms(2) len])
    finally show ?thesis using False Cons by simp
  qed
qed

lemma reader_field_comma:
  assumes "m = START_FIELD \<or> m = START_RECORD" and "rest \<noteq> []" and "length t \<le> field_limit"
  shows "reader_rows \<lparr>mode = m, cur_field = [], rec_fields = fs\<rparr> (write_field t @ CHR '','' # rest)
         = reader_rows \<lparr>mode = START_FIELD, cur_field = [], rec_fields = fs @ [t]\<rparr> rest"
proof -
  have "reader_rows \<lparr>mode = m, cur_field = [], rec_fields = fs\<rparr> (write_field t @ CHR '','' # rest)
        = reader_rows \<lparr>mode = (if list_ex csv_special t then QUOTE_IN_QUOTED_FIELD
                                 else if t = [] then m else IN_FIELD),
                         cur_field = t, rec_fields = fs\<rparr> (CHR '','' # rest)"
    by (rule reader_field [OF assms(1) _ assms(3)]) simp
  also have "\<dots> = reader_rows \<lparr>mode = START_FIELD, cur_field = [], rec_fields = fs @ [t]\<rparr> rest"
    by (rule reader_comma) (use assms in auto)
  finally show ?thesis .
qed

lemma reader_field_end:
  assumes "m = START_FIELD \<or> (m = START_RECORD \<and> t \<noteq> [])" and "length t \<le> field_limit"
  shows "reader_rows \<lparr>mode = m, cur_field = [], rec_fields = fs\<rparr> (write_field t @ CR # LF # rest)
         = emit (fs @ [t]) (reader_rows parse_reset rest)"
proof -
  have m: "m = START_FIELD \<or> m = START_RECORD" using assms by auto
  have "reader_rows \<lparr>mode = m, cur_field = [], rec_fields = fs\<rparr> (write_field t @ CR # LF # rest)
        = reader_rows \<lparr>mode = (if list_ex csv_special t then QUOTE_IN_QUOTED_FIELD
                                 else if t = [] then m else IN_FIELD),
                         cur_field = t, rec_fields = fs\<rparr> (CR # LF # rest)"
    by (rule reader_field [OF m _ assms(2)]) simp
  also have "\<dots> = emit (fs @ [t]) (reader_rows parse_reset rest)"
    by (rule reader_row_end) (use assms in auto)
  finally show ?thesis .
qed

lemma reader_join_fields:
  assumes "ts \<noteq> []" and "\<forall>t\<in>set ts. length t \<le> field_limit"
  shows "reader_rows \<lparr>mode = START_FIELD, cur_field = [], rec_fields = fs\<rparr>
           (join_fields ts @ CR # LF # rest)
         = emit (fs @ ts) (reader_rows parse_reset rest)"
  using assms
proof (induction ts arbitrary: fs rule: join_fields.induct)
  case 1
  then show ?case by simp
next
  case (2 t)
  then show ?case using reader_field_end [of START_FIELD t fs rest] by simp
next
  case (3 t u us)
  have "reader_rows \<lparr>mode = START_FIELD, cur_field = [], rec_fields = fs\<rparr>
          (join_fields (t # u # us) @ CR # LF # rest)
        = reader_rows \<lparr>mode = START_FIELD, cur_field = [], rec_fields = fs @ [t]\<rparr>
          (join_fields (u # us) @ CR # LF # rest)"
    using "3.prems"(2)
      reader_field_comma [of START_FIELD "join_fields (u # us) @ CR # LF # rest" t fs]
    by simp
  also have "\<dots> = emit ((fs @ [t]) @ u # us) (reader_rows parse_reset rest)"
    by (rule "3.IH") (use "3.prems"(2) in simp_all)
  finally show ?case by simp
qed

lemma reader_writerow:
  assumes "\<forall>t\<in>set ts. length t \<le> field_limit"
  shows "reader_rows parse_reset (writerow_text ts @ rest) = emit ts (reader_rows parse_reset rest)"
proof (cases ts)
  case Nil
  then show ?thesis by (simp add: writerow_text_def reader_empty_row del: reader_rows.simps)
next
  case (Cons t us)
  show ?thesis
  proof (cases us)
    case Nil
    show ?thesis
    proof (cases "t = []")
      case True
      have "reader_rows parse_reset (CHR 0x22 # CHR 0x22 # CR # LF # rest)
            = emit [[]] (reader_rows parse_reset rest)"
        by (simp add: parse_reset_def parse_process_char_def start_field_char_def line_ends_def
            parse_save_field_def parse_process_eol_def Let_def)
      with True Nil \<open>ts = t # us\<close> show ?thesis by (simp add: writerow_text_def)
    next
      case False
      with Nil \<open>ts = t # us\<close> assms show ?thesis
        using reader_field_end [of START_RECORD t "[]" rest]
        by (simp add: writerow_text_def parse_reset_def)
    qed
  next
    case (Cons u vs)
    have "reader_rows parse_reset (writerow_text ts @ rest)
          = reader_rows \<lparr>mode = START_FIELD, cur_field = [], rec_fields = [] @ [t]\<rparr>
              (join_fields (u # vs) @ CR # LF # rest)"
      using Cons \<open>ts = t # us\<close> assms
        reader_field_comma [of START_RECORD "join_fields (u # vs) @ CR # LF # rest" t "[]"]
      by (simp add: writerow_text_def parse_reset_def)
    also have "\<dots> = emit (([] @ [t]) @ u # vs) (reader_rows parse_reset rest)"
      by (rule reader_join_fields) (use Cons \<open>ts = t # us\<close> assms in simp_all)
    finally show ?thesis using Cons \<open>ts = t # us\<close> by simp
  qed
qed

lemma reader_writerows:
  assumes "\<forall>ts\<in>set rows. \<forall>t\<in>set ts. length t \<le> field_limit"
  shows "reader_rows parse_reset (concat (map writerow_text rows)) = Inr rows"
  using assms
proof (induction rows)
  case Nil
  show ?case by (simp add: parse_reset_def)
next
  case (Cons ts rows)
  then show ?case by (simp add: reader_writerow emit_def)
qed

lemma header_labels_short: "\<forall>t\<in>set header_labels. length t \<le> field_limit"
  by (simp add: header_labels_def field_limit_def)

subsection \<open>The texts of the screening form\<close>

lemma is_digit_digit_char: "d < 10 \<Longrightarrow> is_digit (digit_char d)"
  by (simp add: is_digit_def digit_char_def)

lemma nat_str_digits: "nat_str n \<noteq> [] \<and> list_all is_digit (nat_str n)"
proof (induction n rule: nat_str.induct)
  case (1 n)
  show ?case
  proof (cases "n < 10")
    case True
    then show ?thesis by (simp add: nat_str.simps [of n] is_digit_digit_char)
  next
    case False
    with 1 show ?thesis by (simp add: nat_str.simps [of n] is_digit_digit_char)
  qed
qed

lemma hba1c_text_format: "one_decimal_percent (hba1c_text k)"
proof -
  have m: "nat_str (k mod 10) = [digit_char (k mod 10)]"
    by (simp add: nat_str.simps [of "k mod 10"])
  have "rev (hba1c_text k) = CHR ''%'' # digit_char (k mod 10) # CHR ''.'' # rev (nat_str (k div 10))"
    by (simp add: hba1c_text_def m)
  then show ?thesis
    using nat_str_digits [of "k div 10"]
    by (simp add: one_decimal_percent_def is_digit_digit_char)
qed

subsection \<open>The scenario, the export and the table\<close>

lemma reader_export:
  assumes "\<forall>r\<in>set (all_records s). \<forall>v\<in>set r. length (csv_text v) \<le> field_limit"
  shows "csv_reader (export_text s) = Inr (header_labels # map (map csv_text) (all_records s))"
proof -
  have "map csv_text (map PStr header_labels) = header_labels"
    by (simp add: comp_def csv_text_def)
  then have "export_text s
             = concat (map writerow_text (header_labels # map (map csv_text) (all_records s)))"
    by (simp add: export_text_def writerow_def [abs_def] comp_def)
  moreover have "\<forall>ts\<in>set (header_labels # map (map csv_text) (all_records s)).
                   \<forall>t\<in>set ts. length t \<le> field_limit"
    using assms header_labels_short by auto
  ultimately show ?thesis
    by (simp only: csv_reader_def reader_writerows)
qed

lemma two_records_view: "all_records two_records = [jane_doe, john_roe]"
  by code_simp

lemma scenario_texts_short:
  "list_all (\<lambda>v. length (csv_text v) \<le> 100) jane_doe"
  "list_all (\<lambda>v. length (csv_text v) \<le> 100) john_roe"
  "list_all (\<lambda>v. length (csv_text v) \<le> 100) quoted_record"
  by code_simp+

lemma short_enough: "list_all (\<lambda>v. length (csv_text v) \<le> 100) r \<Longrightarrow>
    \<forall>v\<in>set r. length (csv_text v) \<le> field_limit"
  by (auto simp: list_all_iff field_limit_def)

lemma read_back_kept:
  assumes "kept_by_table r"
  shows "read_back convert r = r"
proof -
  from assms have "length r = 14" by (simp add: kept_by_table_def)
  then obtain a b c d e f g h i j k l m n where r: "r = [a, b, c, d, e, f, g, h, i, j, k, l, m, n]"
    by (auto simp: eval_nat_numeral length_Suc_conv)
  from assms show ?thesis
    unfolding r
    by (simp add: kept_by_table_def read_back_def insert_columns_def select_columns_def
        column_store_def column_type_of_def)
qed

lemma saved_record_kept:
  assumes "save_screening f = Some r"
    and "0 \<le> p_age f" "p_age f \<le> 120" "0 \<le> diabetes_duration f" "diabetes_duration f \<le> 80"
  shows "kept_by_table r"
proof -
  from assms(1) have r:
    "r = [PStr (p_id f), PStr (py_strip (p_name f)),
          PStr (if p_dob f = minimumDate then '''' else date_text (p_dob f)),
          (if p_age f > 0 then PInt (p_age f) else PStr ''''),
          PStr (p_sex f), PStr (py_strip (p_contact f)), PStr (p_eye f),
          PStr (if diabetes_type f \<noteq> ''Select'' then diabetes_type f else ''''),
          PInt (diabetes_duration f), PStr (hba1c_text (hba1c f)),
          PStr (if prev_treatment f then ''Yes'' else ''No''), PStr (py_strip (notes_text f)),
          PStr (r_class f), PStr (r_conf f)]"
    by (auto simp: save_screening_def Let_def split: if_splits)
  show ?thesis
    using assms(2-5)
    by (simp add: r kept_by_table_def sqlite_integer_def insert_columns_def column_type_of_def
        column_keeps_def)
qed

section \<open>The claims\<close>

text \<open>
  Claim C1: the durable write comes before the update of the in-memory view, and a
  record whose write failed is in neither the view nor any later load or filter result.
  The code appends to the view first and never looks at the outcome of the write: with
  a write that fails on an empty database, the record is in the view, in the table, in
  the result of the search for \<open>jane\<close> and in the total of the dashboard, and stays in
  the view through the events that follow, while the database does not hold it.
\<close>

theorem failed_append_observable:
  "db_insert id (Some ''disk I/O error'') jane_doe (db (start_app None [])) = Inl ''disk I/O error''
   \<and> all_records failed_append = [jane_doe]
   \<and> patient_table failed_append = [table_row jane_doe]
   \<and> shown_records ''jane'' (all_records failed_append) = [jane_doe]
   \<and> stat_total (stats failed_append) = 1
   \<and> db failed_append = []
   \<and> all_records (page_run id failed_append
          [Search ''dr'', Add_record None john_roe, Export_csv ''out.csv'' None])
       = [jane_doe, john_roe]
   \<and> db (page_run id failed_append
          [Search ''dr'', Add_record None john_roe, Export_csv ''out.csv'' None])
       = [john_roe]"
  by code_simp

text \<open>
  Claim C2: every I/O failure of an append or a load comes back to the caller as an
  error result. In the code both calls return \<^verbatim>\<open>None\<close> as they do on success and the
  failure is only printed: the caller of a load that failed on a database holding a
  record gets what the caller of a load of an empty database gets, and the same empty
  view.
\<close>

theorem io_failure_not_reported:
  "\<not> reported (fst (add_patient_record id (Some ''disk I/O error'') jane_doe (start_app None [])))
   \<and> console failed_append = [''Failed to save patient record: disk I/O error'']
   \<and> \<not> reported (fst (load_records_from_db (Some ''unable to open database file'') (new_page [jane_doe])))
   \<and> fst (load_records_from_db (Some ''unable to open database file'') (new_page [jane_doe]))
       = fst (load_records_from_db None (new_page []))
   \<and> all_records (start_page (Some ''unable to open database file'') [jane_doe])
       = all_records (start_page None [])"
  by code_simp

text \<open>
  Claim C3: after appends whose writes all succeed, of records the table keeps as they
  are, a page built by a fresh process on the same database file has exactly those
  records in its view, field for field, after the records the file held before and in
  the order of the appends; a load that succeeds replaces the view (and the table
  widget) by the stored rows in their order. The \<^verbatim>\<open>INSERT\<close> and the \<^verbatim>\<open>SELECT\<close> name the
  same columns in the same order, and every record the screening form builds, its spin
  boxes within their ranges, is one the table keeps as it is.
\<close>

theorem restart_returns_appended_records:
  assumes "\<forall>r\<in>set rs. kept_by_table r"
  shows "all_records (start_page None
           (db (page_run (read_back convert) (start_page None tbl) (map (Add_record None) rs))))
         = tbl @ rs
       \<and> all_records (snd (load_records_from_db None s)) = db s
       \<and> patient_table (snd (load_records_from_db None s)) = map table_row (db s)
       \<and> (\<forall>f r. save_screening f = Some r \<and> 0 \<le> p_age f \<and> p_age f \<le> 120
                \<and> 0 \<le> diabetes_duration f \<and> diabetes_duration f \<le> 80 \<longrightarrow> kept_by_table r)"
proof -
  have "\<forall>r\<in>set rs. length r = 14 \<and> list_all sqlite_integer r \<and> read_back convert r = r"
    using assms by (auto simp: read_back_kept) (simp_all add: kept_by_table_def)
  then have "db (page_run (read_back convert) (start_page None tbl) (map (Add_record None) rs))
             = tbl @ rs"
    by (simp add: page_run_appends)
  then show ?thesis
    by (auto simp: start_page_view load_ok saved_record_kept)
qed

theorem restart_returns_appended_records_witness:
  "kept_by_table jane_doe \<and> kept_by_table john_roe
   \<and> all_records (start_page None
        (db (page_run (read_back (\<lambda>ty v. PNone)) (start_page None [])
               (map (Add_record None) [jane_doe, john_roe]))))
      = [jane_doe, john_roe]
   \<and> save_screening adult_form
      = Some [PStr ''ES-20250601-0002'', PStr ''John Roe'', PStr ''2001-07-15'', PInt 23,
              PStr ''Male'', PStr ''john@example.org'', PStr ''Left Eye'', PStr ''Type 1'', PInt 9,
              PStr ''8.4%'', PStr ''Yes'', PStr '''', PStr ''No DR Detected'',
              PStr ''Confidence: 93.8%'']
   \<and> kept_by_table
        [PStr ''ES-20250601-0002'', PStr ''John Roe'', PStr ''2001-07-15'', PInt 23,
         PStr ''Male'', PStr ''john@example.org'', PStr ''Left Eye'', PStr ''Type 1'', PInt 9,
         PStr ''8.4%'', PStr ''Yes'', PStr '''', PStr ''No DR Detected'', PStr ''Confidence: 93.8%'']"
proof -
  have k: "kept_by_table jane_doe" "kept_by_table john_roe"
    by code_simp+
  have h: "\<forall>r\<in>set [jane_doe, john_roe]. kept_by_table r"
    using k by simp
  have f: "save_screening adult_form
      = Some [PStr ''ES-20250601-0002'', PStr ''John Roe'', PStr ''2001-07-15'', PInt 23,
              PStr ''Male'', PStr ''john@example.org'', PStr ''Left Eye'', PStr ''Type 1'', PInt 9,
              PStr ''8.4%'', PStr ''Yes'', PStr '''', PStr ''No DR Detected'',
              PStr ''Confidence: 93.8%'']"
    by code_simp
  have g: "0 \<le> p_age adult_form" "p_age adult_form \<le> 120"
    "0 \<le> diabetes_duration adult_form" "diabetes_duration adult_form \<le> 80"
    by code_simp+
  show ?thesis
    using restart_returns_appended_records
      [where convert = "\<lambda>ty v. PNone" and rs = "[jane_doe, john_roe]" and tbl = "[]", OF h]
      k f g
    by simp
qed



text \<open>
  Claim C7 says the total on the dashboard is the number of records of the view and not
  of a filtered subset. The dashboard counts the rows of the table widget, which holds
  the filtered records: with two records in the view and the search text \<open>john\<close>, the
  total is 1, and the positive count and the recent activity are those of the one row
  shown.
\<close>

theorem dashboard_counts_shown_rows:
  "all_records (filter_table ''john'' two_records) = [jane_doe, john_roe]
   \<and> stat_total (stats (filter_table ''john'' two_records)) = 1
   \<and> stat_dr (stats (filter_table ''john'' two_records)) = 1
   \<and> recent_activity (stats (filter_table ''john'' two_records))
        = [(''ES-20250101-0002'', ''John Roe'', ''Mild DR'')]"
  by code_simp

text \<open>
  Claim C8, the scenario of the two records: the search for \<open>dr\<close> shows both, the
  search for \<open>jane\<close> shows the first only, and the count of positive findings should
  be 1. The count of the code is 2 on the two records, because \<open>No DR Detected\<close>
  holds \<open>dr\<close> too; it is 1 only while the search for \<open>jane\<close> hides the second record.
\<close>

theorem two_records_positive_count:
  "shown_records ''dr'' (all_records two_records) = [jane_doe, john_roe]
   \<and> shown_records ''jane'' (all_records two_records) = [jane_doe]
   \<and> stat_dr (stats two_records) = 2
   \<and> stat_dr (stats (filter_table ''dr'' two_records)) = 2
   \<and> stat_dr (stats (filter_table ''jane'' two_records)) = 1"
  by code_simp

text \<open>
  Claim C9: once the page is built, an append puts exactly one record at the end of the
  in-memory view, whatever the outcome of its write, and every event of the page, and
  every sequence of them, leaves the records already in the view in place and
  unchanged: the old view is a prefix of the new one.
\<close>

theorem append_grows_view:
  "all_records (page_step stored_as s (Add_record fault r)) = all_records s @ [r]
   \<and> prefix (all_records s) (all_records (page_step stored_as s ev))
   \<and> prefix (all_records s) (all_records (page_run stored_as s evs))"
  by (simp add: page_step_prefix page_run_prefix)

theorem append_grows_view_witness:
  "all_records (page_step id two_records (Add_record (Some ''disk I/O error'') jane_doe))
     = all_records two_records @ [jane_doe]
   \<and> prefix (all_records two_records)
        (all_records (page_run id two_records
           [Search ''jane'', Add_record None jane_doe, Export_csv ''out.csv'' None, Show_details 0 0]))"
  using append_grows_view [of id two_records "Some ''disk I/O error''" jane_doe "Search ''jane''"
      "[Search ''jane'', Add_record None jane_doe, Export_csv ''out.csv'' None, Show_details 0 0]"]
  by simp

text \<open>
  Claim C5, as the specification states it: the header row holds the field names of the
  data model, and the records browser exports the current filtered view. The header of
  the code holds the column labels of the table widget, and the export writes every
  record of the view: with the search text \<open>jane\<close>, which shows the first record only,
  the file holds both records.
\<close>

theorem export_differs_from_spec:
  "shown_records ''jane'' (all_records (filter_table ''jane'' two_records)) = [jane_doe]
   \<and> export_text (filter_table ''jane'' two_records)
        = writerow (map PStr header_labels) @ writerow jane_doe @ writerow john_roe
   \<and> header_labels \<noteq> spec_field_names
   \<and> export_text (filter_table ''jane'' two_records) \<noteq> spec_export ''jane'' (all_records two_records)"
  by code_simp

text \<open>
  Claim C5, amended: an export that is not cancelled and meets no I/O failure writes a
  fixed header row of the fourteen column labels of the records table, in the order of
  the columns, and then every record of the in-memory view, whatever the search text,
  one row terminated by CR LF for each record in the order of the view, the fields in
  the order of the record.
\<close>

theorem export_writes_labels_and_view:
  assumes "path \<noteq> ''''"
  shows "export_to_csv path None (filter_table q s)
           = Exported path
               (''Patient ID,Name,Birthdate,Age,Sex,Contact,Eye(s),Diabetes Type,Duration (yrs),HbA1c,Prev Treatment,Notes,Result,Confidence''
                @ [CR, LF] @ concat (map (\<lambda>r. writerow_text (map csv_text r)) (all_records s)))
       \<and> export_to_csv path None (filter_table q s) = export_to_csv path None s"
proof -
  have "writerow (map PStr header_labels)
        = ''Patient ID,Name,Birthdate,Age,Sex,Contact,Eye(s),Diabetes Type,Duration (yrs),HbA1c,Prev Treatment,Notes,Result,Confidence''
          @ [CR, LF]"
    by code_simp
  then show ?thesis
    using assms
    by (simp add: export_to_csv_def export_text_def filter_table_def writerow_def [abs_def])
qed

theorem export_writes_labels_and_view_witness:
  "''out.csv'' \<noteq> ''''
   \<and> export_to_csv ''out.csv'' None (filter_table ''jane'' two_records)
        = Exported ''out.csv''
            (''Patient ID,Name,Birthdate,Age,Sex,Contact,Eye(s),Diabetes Type,Duration (yrs),HbA1c,Prev Treatment,Notes,Result,Confidence''
             @ [CR, LF] @ writerow_text (map csv_text jane_doe) @ writerow_text (map csv_text john_roe))"
proof -
  have h: "''out.csv'' \<noteq> ''''"
    by simp
  have v: "all_records two_records = [jane_doe, john_roe]"
    by code_simp
  show ?thesis
    using export_writes_labels_and_view [OF h, of "''jane''" two_records] v by simp
qed

text \<open>
  Claim C6, as the specification states it: re-parsing an export gives back the
  exported records field for field. The file holds texts only: read back, the age 23 of
  the first record of the scenario is the text \<open>23\<close>, so the rows read are not the
  records exported, and a view holding that text in place of the integer, or the empty
  text in place of a null, gives the same file.
\<close>

theorem export_reparse_loses_types:
  "csv_reader (export_text two_records)
     = Inr [header_labels, map csv_text jane_doe, map csv_text john_roe]
   \<and> map (map PStr) [map csv_text jane_doe, map csv_text john_roe] \<noteq> all_records two_records
   \<and> export_text (start_app None [map (PStr \<circ> csv_text) jane_doe])
       = export_text (start_app None [jane_doe])
   \<and> all_records (start_app None [map (PStr \<circ> csv_text) jane_doe])
       \<noteq> all_records (start_app None [jane_doe])
   \<and> export_text (start_app None [jane_doe[5 := PNone]])
       = export_text (start_app None [jane_doe])
   \<and> jane_doe[5 := PNone] \<noteq> jane_doe"
proof -
  have short: "\<forall>r\<in>set (all_records two_records). \<forall>v\<in>set r. length (csv_text v) \<le> field_limit"
    unfolding two_records_view
    using scenario_texts_short(1,2) [THEN short_enough] by simp
  have 1: "csv_reader (export_text two_records)
           = Inr [header_labels, map csv_text jane_doe, map csv_text john_roe]"
    using reader_export [OF short] by (simp add: two_records_view)
  have 2: "map (map PStr) [map csv_text jane_doe, map csv_text john_roe] \<noteq> all_records two_records"
    by code_simp
  have 3: "export_text (start_app None [map (PStr \<circ> csv_text) jane_doe])
           = export_text (start_app None [jane_doe])"
    by code_simp
  have 4: "all_records (start_app None [map (PStr \<circ> csv_text) jane_doe])
           \<noteq> all_records (start_app None [jane_doe])"
    by code_simp
  have 5: "export_text (start_app None [jane_doe[5 := PNone]])
           = export_text (start_app None [jane_doe])"
    by code_simp
  have 6: "jane_doe[5 := PNone] \<noteq> jane_doe"
    by code_simp
  from 1 2 3 4 5 6 show ?thesis by blast
qed

text \<open>
  Claim C6, amended: when no field of the view is written as more than 131072
  characters, the limit of the reader, re-parsing an export returns the header row and
  then, for each exported record in order, the texts of its fields as they were written
  (a string as it is, an integer in decimal digits, null as the empty text), whatever
  characters the fields hold: delimiters, quotes and line breaks come back unchanged.
  For records whose fields are all strings the rows read are the records exported,
  field for field.
\<close>

theorem export_reparse_roundtrip:
  assumes "\<forall>r\<in>set (all_records s). \<forall>v\<in>set r. length (csv_text v) \<le> field_limit"
  shows "csv_reader (export_text s) = Inr (header_labels # map (map csv_text) (all_records s))
       \<and> ((\<forall>r\<in>set (all_records s). \<forall>v\<in>set r. v = PStr (csv_text v)) \<longrightarrow>
            map (map PStr) (map (map csv_text) (all_records s)) = all_records s)"
proof -
  have "map (map PStr) (map (map csv_text) (all_records s)) = all_records s"
    if all: "\<forall>r\<in>set (all_records s). \<forall>v\<in>set r. v = PStr (csv_text v)"
  proof -
    have "map PStr (map csv_text r) = r" if "r \<in> set (all_records s)" for r
    proof -
      have "map (\<lambda>v. PStr (csv_text v)) r = map (\<lambda>v. v) r"
        by (rule map_cong [OF refl]) (use that all in auto)
      then show ?thesis by (simp add: comp_def)
    qed
    then have "map (\<lambda>r. map PStr (map csv_text r)) (all_records s) = map (\<lambda>r. r) (all_records s)"
      by (intro map_cong [OF refl])
    then show ?thesis by (simp add: comp_def)
  qed
  with reader_export [OF assms] show ?thesis by blast
qed

theorem export_reparse_roundtrip_witness:
  "list_all (list_all (\<lambda>v. length (csv_text v) \<le> field_limit))
     (all_records (start_app None [map (PStr \<circ> csv_text) quoted_record]))
   \<and> list_all (list_all (\<lambda>v. v = PStr (csv_text v)))
     (all_records (start_app None [map (PStr \<circ> csv_text) quoted_record]))
   \<and> csv_reader (export_text (start_app None [map (PStr \<circ> csv_text) quoted_record]))
     = Inr [header_labels, map csv_text quoted_record]
   \<and> map (map PStr) [map csv_text quoted_record]
     = all_records (start_app None [map (PStr \<circ> csv_text) quoted_record])
   \<and> map csv_text quoted_record ! 11
       = ''wears '' @ [CHR 0x22] @ ''contacts'' @ [CHR 0x22] @ '', left eye'' @ [CR, LF]
         @ ''recall in 6 months''"
proof -
  let ?s = "start_app None [map (PStr \<circ> csv_text) quoted_record]"
  have v: "all_records ?s = [map (PStr \<circ> csv_text) quoted_record]"
    by (simp add: start_app_def start_page_view)
  have t: "map csv_text (map (PStr \<circ> csv_text) quoted_record) = map csv_text quoted_record"
    by (simp add: comp_def csv_text_def)
  have h1: "\<forall>r\<in>set (all_records ?s). \<forall>v\<in>set r. length (csv_text v) \<le> field_limit"
    unfolding v using scenario_texts_short(3) [THEN short_enough] by (simp add: csv_text_def)
  have h2: "\<forall>r\<in>set (all_records ?s). \<forall>v\<in>set r. v = PStr (csv_text v)"
    unfolding v by (simp add: csv_text_def)
  have n: "map csv_text quoted_record ! 11
           = ''wears '' @ [CHR 0x22] @ ''contacts'' @ [CHR 0x22] @ '', left eye'' @ [CR, LF]
             @ ''recall in 6 months''"
    by code_simp
  from export_reparse_roundtrip [OF h1] h2
  have r: "csv_reader (export_text ?s) = Inr (header_labels # map (map csv_text) (all_records ?s))"
    and m: "map (map PStr) (map (map csv_text) (all_records ?s)) = all_records ?s"
    by blast+
  have a: "list_all (list_all (\<lambda>v. length (csv_text v) \<le> field_limit)) (all_records ?s)"
    unfolding list_all_iff using h1 by blast
  have b: "list_all (list_all (\<lambda>v. v = PStr (csv_text v))) (all_records ?s)"
    unfolding list_all_iff using h2 by blast
  have c: "csv_reader (export_text ?s) = Inr [header_labels, map csv_text quoted_record]"
    using r by (simp only: v t list.map)
  have d: "map (map PStr) [map csv_text quoted_record] = all_records ?s"
    using m by (simp only: v t list.map)
  from a b c d n show ?thesis by (intro conjI)
qed

text \<open>
  Claim C10: the record that \<^verbatim>\<open>save_screening\<close> hands to the records page is normalised.
  It has fourteen fields; the diabetes type is the empty text in place of \<open>Select\<close>;
  the age is the empty text exactly when the age shown is 0, also when a date of birth
  was entered, whose text is then stored; the previous treatment is \<open>Yes\<close> or \<open>No\<close>;
  the HbA1c is a number with one decimal followed by the percent sign. The age shown is
  the value of a spin box of range 0 to 120, set from the date of birth.
\<close>

theorem save_screening_normalized:
  assumes "save_screening f = Some r" and "0 \<le> p_age f"
  shows "length r = 14
       \<and> r ! 7 = PStr (if diabetes_type f = ''Select'' then '''' else diabetes_type f)
       \<and> r ! 7 \<noteq> PStr ''Select''
       \<and> (r ! 3 = PStr '''' \<longleftrightarrow> p_age f = 0)
       \<and> (p_age f \<noteq> 0 \<longrightarrow> r ! 3 = PInt (p_age f))
       \<and> (p_dob f \<noteq> minimumDate \<longrightarrow> r ! 2 = PStr (date_text (p_dob f)))
       \<and> (r ! 10 = PStr ''Yes'' \<or> r ! 10 = PStr ''No'')
       \<and> (\<exists>t. r ! 9 = PStr t \<and> one_decimal_percent t)
       \<and> all_records (save_screening_to_page stored_as fault f s) = all_records s @ [r]
       \<and> 0 \<le> p_age (set_dob today date f) \<and> p_age (set_dob today date f) \<le> 120"
proof -
  from assms(1) have r:
    "r = [PStr (p_id f), PStr (py_strip (p_name f)),
          PStr (if p_dob f = minimumDate then '''' else date_text (p_dob f)),
          (if p_age f > 0 then PInt (p_age f) else PStr ''''),
          PStr (p_sex f), PStr (py_strip (p_contact f)), PStr (p_eye f),
          PStr (if diabetes_type f \<noteq> ''Select'' then diabetes_type f else ''''),
          PInt (diabetes_duration f), PStr (hba1c_text (hba1c f)),
          PStr (if prev_treatment f then ''Yes'' else ''No''), PStr (py_strip (notes_text f)),
          PStr (r_class f), PStr (r_conf f)]"
    by (auto simp: save_screening_def Let_def split: if_splits)
  have "all_records (save_screening_to_page stored_as fault f s) = all_records s @ [r]"
    using assms(1) by (simp add: save_screening_to_page_def)
  moreover have "\<exists>t. r ! 9 = PStr t \<and> one_decimal_percent t"
    by (simp add: r hba1c_text_format)
  moreover have "r ! 3 = PStr '''' \<longleftrightarrow> p_age f = 0"
    using assms(2) by (simp add: r)
  moreover have "p_age f \<noteq> 0 \<longrightarrow> r ! 3 = PInt (p_age f)"
    using assms(2) by (simp add: r)
  moreover have "length r = 14" by (simp add: r)
  moreover have "r ! 7 = PStr (if diabetes_type f = ''Select'' then '''' else diabetes_type f)"
    by (simp add: r)
  moreover have "r ! 7 \<noteq> PStr ''Select''" by (simp add: r)
  moreover have "p_dob f \<noteq> minimumDate \<longrightarrow> r ! 2 = PStr (date_text (p_dob f))" by (simp add: r)
  moreover have "r ! 10 = PStr ''Yes'' \<or> r ! 10 = PStr ''No''" by (simp add: r)
  moreover have "0 \<le> p_age (set_dob today date f) \<and> p_age (set_dob today date f) \<le> 120"
    by (simp add: set_dob_def update_age_from_dob_def spin_value_def Let_def split: prod.splits)
  ultimately show ?thesis by blast
qed

theorem save_screening_normalized_witness:
  "save_screening example_form
     = Some [PStr ''ES-20250601-0001'', PStr ''Jane Doe'', PStr ''2025-01-15'', PStr '''',
             PStr ''Female'', PStr '''', PStr ''Both Eyes'', PStr '''', PInt 5, PStr ''7.0%'',
             PStr ''No'', PStr '''', PStr ''No DR Detected'', PStr ''Confidence: 93.8%'']
   \<and> 0 \<le> p_age example_form \<and> p_age example_form = 0 \<and> p_dob example_form \<noteq> minimumDate
   \<and> one_decimal_percent ''7.0%''
   \<and> all_records (save_screening_to_page id None example_form two_records)
       = all_records two_records
         @ [[PStr ''ES-20250601-0001'', PStr ''Jane Doe'', PStr ''2025-01-15'', PStr '''',
             PStr ''Female'', PStr '''', PStr ''Both Eyes'', PStr '''', PInt 5, PStr ''7.0%'',
             PStr ''No'', PStr '''', PStr ''No DR Detected'', PStr ''Confidence: 93.8%'']]
   \<and> save_screening adult_form
     = Some [PStr ''ES-20250601-0002'', PStr ''John Roe'', PStr ''2001-07-15'', PInt 23,
             PStr ''Male'', PStr ''john@example.org'', PStr ''Left Eye'', PStr ''Type 1'', PInt 9,
             PStr ''8.4%'', PStr ''Yes'', PStr '''', PStr ''No DR Detected'',
             PStr ''Confidence: 93.8%'']
   \<and> 0 \<le> p_age adult_form \<and> p_age adult_form \<noteq> 0 \<and> one_decimal_percent ''8.4%''"
proof -
  have h1: "save_screening example_form
     = Some [PStr ''ES-20250601-0001'', PStr ''Jane Doe'', PStr ''2025-01-15'', PStr '''',
             PStr ''Female'', PStr '''', PStr ''Both Eyes'', PStr '''', PInt 5, PStr ''7.0%'',
             PStr ''No'', PStr '''', PStr ''No DR Detected'', PStr ''Confidence: 93.8%'']"
    by code_simp
  have h2: "0 \<le> p_age example_form"
    by code_simp
  have h3: "p_age example_form = 0" "p_dob example_form \<noteq> minimumDate"
    by code_simp+
  have k1: "save_screening adult_form
     = Some [PStr ''ES-20250601-0002'', PStr ''John Roe'', PStr ''2001-07-15'', PInt 23,
             PStr ''Male'', PStr ''john@example.org'', PStr ''Left Eye'', PStr ''Type 1'', PInt 9,
             PStr ''8.4%'', PStr ''Yes'', PStr '''', PStr ''No DR Detected'',
             PStr ''Confidence: 93.8%'']"
    by code_simp
  have k2: "0 \<le> p_age adult_form" "p_age adult_form \<noteq> 0"
    by code_simp+
  show ?thesis
    using save_screening_normalized [OF h1 h2, of id None two_records]
      save_screening_normalized [OF k1 k2(1), of id None two_records] h1 h2 h3 k1 k2
    by simp
qed

end
